theory Spec2Isabelle
  imports Complex_Main "HOL-Library.AList" "HOL-Library.Sublist"
begin

section \<open>JavaScript values used by the form builder\<close>

text \<open>
  A JavaScript number: an IEEE double is either NaN, one of the two infinities, or a
  finite value (read here as a real). Comparisons with NaN are always false.
\<close>

datatype number = NaN | NegInfinity | Finite real | PosInfinity

fun num_lt :: "number \<Rightarrow> number \<Rightarrow> bool" where
  "num_lt NaN _ = False"
| "num_lt _ NaN = False"
| "num_lt (Finite a) (Finite b) = (a < b)"
| "num_lt NegInfinity NegInfinity = False"
| "num_lt NegInfinity _ = True"
| "num_lt PosInfinity _ = False"
| "num_lt (Finite a) PosInfinity = True"
| "num_lt (Finite a) NegInfinity = False"

definition num_gt :: "number \<Rightarrow> number \<Rightarrow> bool" where
  "num_gt a b = num_lt b a"

section \<open>Field model (types.ts)\<close>

text \<open>
  \<^verbatim>\<open>BaseField = { id; label; required; type }\<close>. The tag \<^verbatim>\<open>type\<close> is the constructor of
  \<open>FormField\<close> below; \<open>fid\<close>, \<open>fmin\<close> and \<open>fmax\<close> are the properties \<^verbatim>\<open>id\<close>,
  \<^verbatim>\<open>min\<close> and \<^verbatim>\<open>max\<close>. \<^verbatim>\<open>min\<close> and \<^verbatim>\<open>max\<close> are declared on NumberField only, but at run
  time a field is a plain object and the object spread in \<^verbatim>\<open>updateField\<close> copies whatever
  own properties the old object had, so the two optional properties are kept with the
  common attributes. \<open>None\<close> stands for a property that is absent or \<^verbatim>\<open>undefined\<close>.
\<close>

record BaseField =
  fid :: string
  label :: string
  required :: bool
  fmin :: "number option"
  fmax :: "number option"

datatype FormField =
    TextField BaseField
  | NumberField BaseField
  | GroupField BaseField "FormField list"

datatype FieldType = TypeText | TypeNumber | TypeGroup

fun base :: "FormField \<Rightarrow> BaseField" where
  "base (TextField b) = b"
| "base (NumberField b) = b"
| "base (GroupField b kids) = b"

fun ftype :: "FormField \<Rightarrow> FieldType" where
  "ftype (TextField b) = TypeText"
| "ftype (NumberField b) = TypeNumber"
| "ftype (GroupField b kids) = TypeGroup"

fun ffields :: "FormField \<Rightarrow> FormField list" where
  "ffields (GroupField b kids) = kids"
| "ffields _ = []"

abbreviation field_id :: "FormField \<Rightarrow> string" where
  "field_id f \<equiv> fid (base f)"

section \<open>Tree locator (utils/findField.ts)\<close>

text \<open>\<^verbatim>\<open>xs[idx]\<close>: reading past the end of an array gives \<^verbatim>\<open>undefined\<close>.\<close>

definition at_index :: "'a list \<Rightarrow> nat \<Rightarrow> 'a option" where
  "at_index xs idx = (if idx < length xs then Some (xs ! idx) else None)"

text \<open>\<^verbatim>\<open>xs.every((id, idx) => id === ys[idx])\<close>\<close>

definition every_matches :: "string list \<Rightarrow> string list \<Rightarrow> bool" where
  "every_matches xs ys =
     list_all (\<lambda>(i, idx). Some i = at_index ys idx) (zip xs [0..<length xs])"

definition pathStartsWith :: "string list \<Rightarrow> string list \<Rightarrow> bool" where
  "pathStartsWith target pfx =
     (length target \<ge> length pfx \<and> every_matches pfx target)"

fun checkWithinScope :: "string list option \<Rightarrow> string list \<Rightarrow> bool" where
  "checkWithinScope None currentPath = True"
| "checkWithinScope (Some parentPath) currentPath =
     (if length parentPath = 0 then length currentPath = 0
      else pathStartsWith currentPath parentPath)"

record FieldSearchResult =
  field :: FormField
  parent :: "FormField list"
  index :: nat

text \<open>
  \<open>searchRecursive\<close> is the inner function of \<^verbatim>\<open>findField\<close>; \<open>searchLoop\<close> is its
  \<^verbatim>\<open>for\<close> loop, started at index 0 on the whole \<^verbatim>\<open>fieldList\<close> and carrying the fields
  not yet visited.
\<close>

fun searchRecursive ::
    "string \<Rightarrow> string list option \<Rightarrow> FormField list \<Rightarrow> string list \<Rightarrow> FieldSearchResult option"
  and searchLoop ::
    "string \<Rightarrow> string list option \<Rightarrow> FormField list \<Rightarrow> string list \<Rightarrow> bool \<Rightarrow> nat
       \<Rightarrow> FormField list \<Rightarrow> FieldSearchResult option"
where
  "searchRecursive fieldId parentPath fieldList currentPath =
     (if parentPath = Some [] \<and> length currentPath > 0 then None
      else searchLoop fieldId parentPath fieldList currentPath
             (checkWithinScope parentPath currentPath) 0 fieldList)"
| "searchLoop fieldId parentPath fieldList currentPath isWithinScope i [] = None"
| "searchLoop fieldId parentPath fieldList currentPath isWithinScope i (f # rest) =
     (if isWithinScope \<and> field_id f = fieldId
      then Some \<lparr>field = f, parent = fieldList, index = i\<rparr>
      else
        (case f of
           GroupField b kids \<Rightarrow>
             (let nextPath = currentPath @ [fid b] in
              (case parentPath of
                 None \<Rightarrow>
                   (case searchRecursive fieldId parentPath kids nextPath of
                      Some found \<Rightarrow> Some found
                    | None \<Rightarrow>
                        searchLoop fieldId parentPath fieldList currentPath isWithinScope
                          (i + 1) rest)
               | Some pp \<Rightarrow>
                   (let isAtOrBeyondPrefix = pathStartsWith nextPath pp;
                        isBuildingPrefix =
                          (length nextPath < length pp \<and> every_matches nextPath pp)
                    in if isAtOrBeyondPrefix \<or> isBuildingPrefix
                       then (case searchRecursive fieldId parentPath kids nextPath of
                               Some found \<Rightarrow> Some found
                             | None \<Rightarrow>
                                 searchLoop fieldId parentPath fieldList currentPath
                                   isWithinScope (i + 1) rest)
                       else searchLoop fieldId parentPath fieldList currentPath
                              isWithinScope (i + 1) rest)))
         | _ \<Rightarrow>
             searchLoop fieldId parentPath fieldList currentPath isWithinScope (i + 1) rest))"

declare searchRecursive.simps [simp del]

definition findField ::
    "string \<Rightarrow> FormField list \<Rightarrow> string list option \<Rightarrow> FieldSearchResult option" where
  "findField fieldId flds parentPath = searchRecursive fieldId parentPath flds []"

definition findFieldByPath :: "string \<Rightarrow> string list \<Rightarrow> FormField list \<Rightarrow> FormField option" where
  "findFieldByPath fieldId parentPath flds =
     (case findField fieldId flds (Some parentPath) of
        Some result \<Rightarrow> Some (field result)
      | None \<Rightarrow> None)"

text \<open>
  The child sequences addressed by a parent path: \<open>levels_at flds p\<close> lists every
  sequence reached from \<open>flds\<close> by descending through groups whose ids are, in order,
  the ids of \<open>p\<close> (several when group ids repeat). It is used to state where a search
  result lives.
\<close>

fun levels_at :: "FormField list \<Rightarrow> string list \<Rightarrow> FormField list list"
  and levels_in :: "FormField list \<Rightarrow> string \<Rightarrow> string list \<Rightarrow> FormField list list"
where
  "levels_at flds [] = [flds]"
| "levels_at flds (g # p) = levels_in flds g p"
| "levels_in [] g p = []"
| "levels_in (GroupField b kids # rest) g p =
     (if fid b = g then levels_at kids p else []) @ levels_in rest g p"
| "levels_in (f # rest) g p = levels_in rest g p"


section \<open>Tree mutator (context/FormBuilderContext.tsx)\<close>

text \<open>
  \<^verbatim>\<open>Partial<FormField>\<close>, the argument of \<^verbatim>\<open>updateField\<close>: every property may be missing
  (\<open>None\<close>). For \<^verbatim>\<open>min\<close> and \<^verbatim>\<open>max\<close> the callers also pass the key with the value
  \<^verbatim>\<open>undefined\<close>, and the code tests \<^verbatim>\<open>'min' in updates\<close>: \<open>Some None\<close> is a key that is present
  and undefined.
\<close>

record FieldUpdates =
  u_id :: "string option"
  u_label :: "string option"
  u_required :: "bool option"
  u_type :: "FieldType option"
  u_min :: "number option option"
  u_max :: "number option option"
  u_fields :: "FormField list option"

definition no_updates :: FieldUpdates where
  "no_updates = \<lparr>u_id = None, u_label = None, u_required = None, u_type = None,
                  u_min = None, u_max = None, u_fields = None\<rparr>"

text \<open>\<^verbatim>\<open>a ?? b\<close>\<close>

definition nullish :: "'a option \<Rightarrow> 'a \<Rightarrow> 'a" where
  "nullish a b = (case a of Some v \<Rightarrow> v | None \<Rightarrow> b)"

text \<open>
  The common attributes of \<^verbatim>\<open>{ ...field, ...updates }\<close>: a key of \<^verbatim>\<open>updates\<close> overrides the
  field's own.
\<close>

definition spread :: "BaseField \<Rightarrow> FieldUpdates \<Rightarrow> BaseField" where
  "spread b u =
     \<lparr>fid = nullish (u_id u) (fid b),
      label = nullish (u_label u) (label b),
      required = nullish (u_required u) (required b),
      fmin = (case u_min u of Some m \<Rightarrow> m | None \<Rightarrow> fmin b),
      fmax = (case u_max u of Some m \<Rightarrow> m | None \<Rightarrow> fmax b)\<rparr>"

text \<open>
  The body of the \<^verbatim>\<open>map\<close> callback of \<^verbatim>\<open>updateField\<close> for a field whose id matches.
  In the last branch the tag stays what it was; a \<^verbatim>\<open>fields\<close> key of the update replaces the
  children of a group (on a text or number field that property is never read, and the
  model does not keep it).
\<close>

definition updateMatched :: "FieldUpdates \<Rightarrow> FormField \<Rightarrow> FormField" where
  "updateMatched updates f =
     (if u_type updates \<noteq> None \<and> u_type updates \<noteq> Some (ftype f) then
        (if u_type updates = Some TypeGroup then
           GroupField (spread (base f) updates)
             (if ftype f = TypeGroup then ffields f else [])
         else
           (let baseField =
                  \<lparr>fid = fid (base f),
                   label = nullish (u_label updates) (label (base f)),
                   required = nullish (u_required updates) (required (base f)),
                   fmin = None, fmax = None\<rparr>
            in if u_type updates = Some TypeNumber then
                 NumberField
                   (baseField\<lparr>fmin := (case u_min updates of Some m \<Rightarrow> m | None \<Rightarrow> None),
                              fmax := (case u_max updates of Some m \<Rightarrow> m | None \<Rightarrow> None)\<rparr>)
               else TextField baseField))
      else
        (case f of
           TextField b \<Rightarrow> TextField (spread b updates)
         | NumberField b \<Rightarrow> NumberField (spread b updates)
         | GroupField b kids \<Rightarrow> GroupField (spread b updates) (nullish (u_fields updates) kids)))"

text \<open>\<open>updateFields\<close> is \<^verbatim>\<open>fields.map(...)\<close>, \<open>updateOne\<close> its callback.\<close>

fun updateFields :: "string \<Rightarrow> FieldUpdates \<Rightarrow> FormField list \<Rightarrow> FormField list"
  and updateOne :: "string \<Rightarrow> FieldUpdates \<Rightarrow> FormField \<Rightarrow> FormField"
where
  "updateFields fieldId updates [] = []"
| "updateFields fieldId updates (f # rest) =
     updateOne fieldId updates f # updateFields fieldId updates rest"
| "updateOne fieldId updates (GroupField b kids) =
     (if fid b = fieldId then updateMatched updates (GroupField b kids)
      else GroupField b (updateFields fieldId updates kids))"
| "updateOne fieldId updates f =
     (if field_id f = fieldId then updateMatched updates f else f)"

definition updateField :: "string \<Rightarrow> FieldUpdates \<Rightarrow> FormField list \<Rightarrow> FormField list" where
  "updateField fieldId updates flds = updateFields fieldId updates flds"

datatype Direction = Up | Down

text \<open>\<^verbatim>\<open>fields.findIndex(p)\<close>; \<open>None\<close> is the result -1.\<close>

fun findIndex :: "('a \<Rightarrow> bool) \<Rightarrow> 'a list \<Rightarrow> nat option" where
  "findIndex p [] = None"
| "findIndex p (x # xs) =
     (if p x then Some 0 else map_option Suc (findIndex p xs))"

text \<open>
  \<open>moveInFields\<close> as in the source; \<open>moveEach\<close> is the \<^verbatim>\<open>fields.map(...)\<close> of the branch taken
  when the id is not at the current level. \<^verbatim>\<open>newIndex\<close> can be -1, so it is an integer.
\<close>

fun moveInFields :: "Direction \<Rightarrow> string \<Rightarrow> FormField list \<Rightarrow> FormField list"
  and moveEach :: "Direction \<Rightarrow> string \<Rightarrow> FormField list \<Rightarrow> FormField list"
where
  "moveInFields direction fieldId flds =
     (case findIndex (\<lambda>f. field_id f = fieldId) flds of
        None \<Rightarrow> moveEach direction fieldId flds
      | Some idx \<Rightarrow>
          (let newIndex = (if direction = Up then int idx - 1 else int idx + 1) in
           if newIndex < 0 \<or> newIndex \<ge> int (length flds) then flds
           else flds[idx := flds ! nat newIndex, nat newIndex := flds ! idx]))"
| "moveEach direction fieldId [] = []"
| "moveEach direction fieldId (GroupField b kids # rest) =
     GroupField b (moveInFields direction fieldId kids) # moveEach direction fieldId rest"
| "moveEach direction fieldId (f # rest) = f # moveEach direction fieldId rest"

declare moveInFields.simps [simp del]

definition moveField :: "string \<Rightarrow> Direction \<Rightarrow> FormField list \<Rightarrow> FormField list" where
  "moveField fieldId direction flds = moveInFields direction fieldId flds"

text \<open>How many fields of the whole tree carry the id \<open>X\<close>.\<close>

fun count_id :: "string \<Rightarrow> FormField list \<Rightarrow> nat" where
  "count_id X [] = 0"
| "count_id X (GroupField b kids # rest) =
     (if fid b = X then 1 else 0) + count_id X kids + count_id X rest"
| "count_id X (TextField b # rest) = (if fid b = X then 1 else 0) + count_id X rest"
| "count_id X (NumberField b # rest) = (if fid b = X then 1 else 0) + count_id X rest"

section \<open>Validation and submission (components/FormPreview.tsx)\<close>

text \<open>
  \<^verbatim>\<open>FormData = Record<string, PrimitiveValue | Record<string, any>>\<close> with
  \<^verbatim>\<open>PrimitiveValue = string | number | null\<close>. The objects of the form data are ordinary
  objects, made by \<^verbatim>\<open>{}\<close> and by object spread: \<open>Obj\<close> is the list of the own properties
  of such an object in insertion order, and its prototype is \<^verbatim>\<open>Object.prototype\<close>. Reading a
  key can therefore also give a member of \<^verbatim>\<open>Object.prototype\<close>: \<open>Builtin k\<close> is its built-in
  function \<open>k\<close>, and \<open>ObjectPrototype\<close> is the object \<^verbatim>\<open>Object.prototype\<close> itself, which the key
  \<^verbatim>\<open>__proto__\<close> gives. \<open>Undefined\<close> is what reading a key gives that is found nowhere.
\<close>

datatype fdval =
    Undefined | Null | Str string | Num number
  | Obj "(string \<times> fdval) list"
  | Builtin string
  | ObjectPrototype

type_synonym FormData = "(string \<times> fdval) list"

text \<open>
  The function-valued members of \<^verbatim>\<open>Object.prototype\<close>; with \<^verbatim>\<open>__proto__\<close> they are all the
  keys it has (nothing is taken to have been added to it).
\<close>

definition prototypeFunctions :: "string list" where
  "prototypeFunctions =
     [''constructor'', ''__defineGetter__'', ''__defineSetter__'', ''hasOwnProperty'',
      ''__lookupGetter__'', ''__lookupSetter__'', ''isPrototypeOf'', ''propertyIsEnumerable'',
      ''toString'', ''valueOf'', ''toLocaleString'']"


text \<open>\<^verbatim>\<open>Object.prototype[key]\<close>; the prototype of \<^verbatim>\<open>Object.prototype\<close> is \<^verbatim>\<open>null\<close>.\<close>

definition prototypeMember :: "string \<Rightarrow> fdval" where
  "prototypeMember k =
     (if k = ''__proto__'' then Null
      else if k \<in> set prototypeFunctions then Builtin k
      else Undefined)"

text \<open>
  \<^verbatim>\<open>obj[key]\<close> for an object of the form data (or \<^verbatim>\<open>Object.prototype\<close>, once a walk has
  stepped onto it): the own property if there is one, else what is inherited. The code
  reads properties of objects only.
\<close>

fun getProp :: "fdval \<Rightarrow> string \<Rightarrow> fdval" where
  "getProp (Obj ob) k =
     (case map_of ob k of
        Some v \<Rightarrow> v
      | None \<Rightarrow> if k = ''__proto__'' then ObjectPrototype else prototypeMember k)"
| "getProp ObjectPrototype k = prototypeMember k"
| "getProp _ k = Undefined"

text \<open>
  \<^verbatim>\<open>obj[key] = value\<close> on the objects that the code builds from \<^verbatim>\<open>{}\<close> and then only lists
  (\<^verbatim>\<open>newErrors\<close>, the result of \<^verbatim>\<open>buildLabeledData\<close>), as far as the own properties go: the
  key \<^verbatim>\<open>__proto__\<close> is the accessor of \<^verbatim>\<open>Object.prototype\<close>, so assigning to it never makes an
  own property (a primitive value is ignored, an object becomes the prototype).
\<close>

definition setOwn :: "string \<Rightarrow> 'v \<Rightarrow> (string \<times> 'v) list \<Rightarrow> (string \<times> 'v) list" where
  "setOwn k v ob = (if k = ''__proto__'' then ob else AList.update k v ob)"

text \<open>
  The strings shown to the user come from the translation function \<^verbatim>\<open>t(key, params)\<close> of
  i18next, whose resource file is not part of the logic: a message is the key and the
  parameters it is looked up with. The messages of the resource file are non-empty, so
  every translated message is truthy. \<open>Literal\<close> is a string that is not translated.
\<close>

datatype message = Translated string "(string \<times> number) list" | Literal string




text \<open>
  \<^verbatim>\<open>value.trim() === ''\<close> holds when every character is white space or a line
  terminator. A \<open>char\<close> is a code unit below 256; there these are tab, line feed, vertical
  tab, form feed, carriage return, space and the no-break space U+00A0. (The others,
  U+FEFF, U+2028, U+2029 and the space separators from U+1680 on, are not characters of
  \<open>string\<close>.)
\<close>

definition is_space :: "char \<Rightarrow> bool" where
  "is_space c =
     (c \<in> set [CHR 0x09, CHR 0x0A, CHR 0x0B, CHR 0x0C, CHR 0x0D, CHR '' '', CHR 0xA0])"

fun isEmptyValue :: "fdval \<Rightarrow> bool" where
  "isEmptyValue Undefined = True"
| "isEmptyValue Null = True"
| "isEmptyValue (Str s) = (s = [] \<or> list_all is_space s)"
| "isEmptyValue _ = False"

text \<open>
  \<^verbatim>\<open>typeof value === 'string' ? Number(value) : value\<close>, as \<^verbatim>\<open>isNaN\<close> and the comparisons
  read it. \<^verbatim>\<open>Number\<close> on a string is the engine's conversion and is a parameter
  (\<open>toNumber\<close>). A value that is neither string nor number can only be an object or a
  function here (\<^verbatim>\<open>null\<close> and \<^verbatim>\<open>undefined\<close> are empty and returned earlier); \<^verbatim>\<open>isNaN\<close>
  converts it to NaN.
\<close>

fun numValue :: "(string \<Rightarrow> number) \<Rightarrow> fdval \<Rightarrow> number" where
  "numValue toNumber (Str s) = toNumber s"
| "numValue toNumber (Num n) = n"
| "numValue toNumber _ = NaN"

definition validateValue :: "(string \<Rightarrow> number) \<Rightarrow> FormField \<Rightarrow> fdval \<Rightarrow> message option" where
  "validateValue toNumber f v =
     (if required (base f) \<and> isEmptyValue v
      then Some (Translated ''formBuilder.validation.required'' [])
      else if isEmptyValue v then None
      else if ftype f = TypeNumber then
        (if v = Null then None
         else if numValue toNumber v = NaN
         then Some (Translated ''formBuilder.validation.invalidNumber'' [])
         else
           (case fmin (base f) of
              Some mn \<Rightarrow>
                if num_lt (numValue toNumber v) mn
                then Some (Translated ''formBuilder.validation.minValue'' [(''min'', mn)])
                else
                  (case fmax (base f) of
                     Some mx \<Rightarrow>
                       if num_gt (numValue toNumber v) mx
                       then Some (Translated ''formBuilder.validation.maxValue'' [(''max'', mx)])
                       else None
                   | None \<Rightarrow> None)
            | None \<Rightarrow>
                (case fmax (base f) of
                   Some mx \<Rightarrow>
                     if num_gt (numValue toNumber v) mx
                     then Some (Translated ''formBuilder.validation.maxValue'' [(''max'', mx)])
                     else None
                 | None \<Rightarrow> None)))
      else None)"







text \<open>
  The walk down the submitted data in \<^verbatim>\<open>buildLabeledData\<close>: here a missing step returns
  the empty result at once (\<open>None\<close>).
\<close>

fun submittedAt :: "fdval \<Rightarrow> string list \<Rightarrow> fdval option" where
  "submittedAt currentData [] = Some currentData"
| "submittedAt currentData (parentId # ps) =
     (case getProp currentData parentId of
        Obj inner \<Rightarrow> submittedAt (Obj inner) ps
      | ObjectPrototype \<Rightarrow> submittedAt ObjectPrototype ps
      | _ \<Rightarrow> None)"

text \<open>
  \<^verbatim>\<open>buildLabeledData\<close>, its loop \<open>labelLoop\<close> and the loop body \<open>labelEntry\<close>: the value
  that one field assigns under its label, or \<open>None\<close> when it assigns nothing. The result
  is the list of the own properties of the object built, which is all that
  \<^verbatim>\<open>Object.keys\<close> and \<^verbatim>\<open>JSON.stringify\<close> read of it.
\<close>

function (sequential) buildLabeledData :: "FormData \<Rightarrow> FormField list \<Rightarrow> string list \<Rightarrow> FormData"
  and labelLoop :: "FormData \<Rightarrow> fdval \<Rightarrow> string list \<Rightarrow> FormField list \<Rightarrow> FormData \<Rightarrow> FormData"
  and labelEntry :: "FormData \<Rightarrow> fdval \<Rightarrow> string list \<Rightarrow> FormField \<Rightarrow> fdval option"
where
  "buildLabeledData data fieldList parentPath =
     (case submittedAt (Obj data) parentPath of
        None \<Rightarrow> []
      | Some currentData \<Rightarrow> labelLoop data currentData parentPath fieldList [])"
| "labelLoop data currentData parentPath [] result = result"
| "labelLoop data currentData parentPath (f # rest) result =
     labelLoop data currentData parentPath rest
       (case labelEntry data currentData parentPath f of
          Some v \<Rightarrow> setOwn (label (base f)) v result
        | None \<Rightarrow> result)"
| "labelEntry data currentData parentPath (GroupField b kids) =
     (let groupValue = buildLabeledData data kids (parentPath @ [fid b])
      in if length groupValue > 0 then Some (Obj groupValue) else None)"
| "labelEntry data currentData parentPath f =
     (let v = getProp currentData (field_id f)
      in if v \<noteq> Undefined \<and> v \<noteq> Null \<and> v \<noteq> Str []
         then (case v of Obj inner \<Rightarrow> None | ObjectPrototype \<Rightarrow> None | _ \<Rightarrow> Some v)
         else None)"
  by pat_completeness auto
termination
  by (relation "measure (\<lambda>x. case x of
          Inl (data, fieldList, parentPath) \<Rightarrow> 2 * size_list size fieldList + 1
        | Inr (Inl (data, currentData, parentPath, fieldList, result)) \<Rightarrow> 2 * size_list size fieldList
        | Inr (Inr (data, currentData, parentPath, f)) \<Rightarrow> 2 * size f)") auto

text \<open>
  The condition under which the loop body of \<^verbatim>\<open>buildLabeledData\<close> assigns the value of a
  text or number field: not \<^verbatim>\<open>undefined\<close>, \<^verbatim>\<open>null\<close> or \<^verbatim>\<open>''\<close>, and not of type object.
\<close>

fun filled :: "fdval \<Rightarrow> bool" where
  "filled (Str s) = (s \<noteq> [])"
| "filled (Num n) = True"
| "filled (Builtin k) = True"
| "filled _ = False"

text \<open>
  Whether a field holds a value for \<^verbatim>\<open>buildLabeledData\<close>, and the value it then assigns
  under its label: for a group the output of its children, when that is not empty; for
  a text or number field the value that the submitted data holds for it, when that is
  filled.
\<close>

fun holdsValue :: "FormData \<Rightarrow> fdval \<Rightarrow> string list \<Rightarrow> FormField \<Rightarrow> bool" where
  "holdsValue data currentData parentPath (GroupField b kids) =
     (buildLabeledData data kids (parentPath @ [fid b]) \<noteq> [])"
| "holdsValue data currentData parentPath f = filled (getProp currentData (field_id f))"

fun writtenValue :: "FormData \<Rightarrow> fdval \<Rightarrow> string list \<Rightarrow> FormField \<Rightarrow> fdval" where
  "writtenValue data currentData parentPath (GroupField b kids) =
     Obj (buildLabeledData data kids (parentPath @ [fid b]))"
| "writtenValue data currentData parentPath f = getProp currentData (field_id f)"








section \<open>Import and export (ConfigurableFormBuilder)\<close>

text \<open>
  A value produced by \<^verbatim>\<open>JSON.parse\<close>; an object is the list of its properties, each key
  once. At run time the live \<^verbatim>\<open>config\<close> is such a value as well: \<^verbatim>\<open>updateConfig(parsed)\<close>
  stores the parsed document as it is.
\<close>

datatype json =
    JNull | JBool bool | JNum number | JStr string
  | JArr "json list" | JObj "(string \<times> json) list"

text \<open>\<^verbatim>\<open>value.key\<close>; \<open>None\<close> is \<^verbatim>\<open>undefined\<close>. An array has none of the keys read here.\<close>

fun jprop :: "json \<Rightarrow> string \<Rightarrow> json option" where
  "jprop (JObj kvs) k = map_of kvs k"
| "jprop _ k = None"

text \<open>\<^verbatim>\<open>!value\<close> is \<open>\<not> truthy value\<close>.\<close>

fun truthy :: "json option \<Rightarrow> bool" where
  "truthy None = False"
| "truthy (Some JNull) = False"
| "truthy (Some (JBool b)) = b"
| "truthy (Some (JNum n)) = (n \<noteq> NaN \<and> n \<noteq> Finite 0)"
| "truthy (Some (JStr s)) = (s \<noteq> [])"
| "truthy (Some (JArr xs)) = True"
| "truthy (Some (JObj kvs)) = True"

datatype jstype = TypeofUndefined | TypeofObject | TypeofBoolean | TypeofNumber | TypeofString

fun typeof :: "json option \<Rightarrow> jstype" where
  "typeof None = TypeofUndefined"
| "typeof (Some JNull) = TypeofObject"
| "typeof (Some (JBool b)) = TypeofBoolean"
| "typeof (Some (JNum n)) = TypeofNumber"
| "typeof (Some (JStr s)) = TypeofString"
| "typeof (Some (JArr xs)) = TypeofObject"
| "typeof (Some (JObj kvs)) = TypeofObject"

text \<open>\<^verbatim>\<open>Array.isArray(value)\<close>\<close>

fun isArray :: "json option \<Rightarrow> bool" where
  "isArray (Some (JArr xs)) = True"
| "isArray _ = False"

fun elements :: "json option \<Rightarrow> json list" where
  "elements (Some (JArr xs)) = xs"
| "elements _ = []"

text \<open>The recursive validation function of \<^verbatim>\<open>handleImportSubmit\<close>.\<close>

function validateField :: "json \<Rightarrow> bool" where
  "validateField fld =
     (if \<not> truthy (Some fld) \<or> typeof (Some fld) \<noteq> TypeofObject then False
      else if \<not> truthy (jprop fld ''id'') \<or> typeof (jprop fld ''id'') \<noteq> TypeofString then False
      else if \<not> truthy (jprop fld ''type'') \<or> typeof (jprop fld ''type'') \<noteq> TypeofString then False
      else if \<not> truthy (jprop fld ''label'') \<or> typeof (jprop fld ''label'') \<noteq> TypeofString then False
      else if typeof (jprop fld ''required'') \<noteq> TypeofBoolean then False
      else if jprop fld ''type'' \<notin> set [Some (JStr ''text''), Some (JStr ''number''), Some (JStr ''group'')]
      then False
      else if jprop fld ''type'' = Some (JStr ''group'') then
        (if \<not> isArray (jprop fld ''fields'') then False
         else list_all validateField (elements (jprop fld ''fields'')))
      else True)"
  by pat_completeness auto
termination
proof (relation "measure size")
  show "wf (measure size)" by simp
next
  fix fld :: json and x :: json
  assume arr: "\<not> \<not> isArray (jprop fld ''fields'')"
    and x: "x \<in> set (elements (jprop fld ''fields''))"
  have lookup: "map_of kvs k = Some v \<Longrightarrow> size v < Suc (size_list (size_prod (\<lambda>_. 0) size) kvs)"
    for kvs :: "(string \<times> json) list" and k v
    by (induction kvs) (auto split: if_splits)
  have elem: "y \<in> set ys \<Longrightarrow> size y < Suc (size_list size ys)" for y :: json and ys
    by (induction ys) auto
  from arr obtain xs where xs: "jprop fld ''fields'' = Some (JArr xs)"
    by (cases "jprop fld ''fields''" rule: isArray.cases) auto
  then obtain kvs where kvs: "fld = JObj kvs" "map_of kvs ''fields'' = Some (JArr xs)"
    by (cases fld) auto
  from x xs have "size x < Suc (size_list size xs)" by (simp add: elem)
  moreover from lookup[OF kvs(2)] have "Suc (size_list size xs) < Suc (size_list (size_prod (\<lambda>_. 0) size) kvs)"
    by simp
  ultimately show "(x, fld) \<in> measure size" using kvs(1) by simp
qed

declare validateField.simps [simp del]

text \<open>
  What the \<^verbatim>\<open>try\<close> block throws. \<^verbatim>\<open>JSON.parse\<close> throws a \<^verbatim>\<open>SyntaxError\<close>, the checks throw
  \<^verbatim>\<open>new Error(t(key))\<close>; both are instances of \<^verbatim>\<open>Error\<close> and carry a message.
\<close>

datatype thrown = ErrorInstance message | OtherValue

text \<open>
  The \<^verbatim>\<open>try\<close> block up to \<^verbatim>\<open>updateConfig\<close>. \<^verbatim>\<open>JSON.parse(importJson)\<close> is the engine's:
  its outcome on the pasted text is the argument \<open>parsed\<close>, \<open>Inl m\<close> for a
  \<^verbatim>\<open>SyntaxError\<close> with message \<open>m\<close> and \<open>Inr v\<close> for the value \<open>v\<close>.
\<close>

definition checkImport :: "string + json \<Rightarrow> thrown + json" where
  "checkImport parsed =
     (case parsed of
        Inl m \<Rightarrow> Inl (ErrorInstance (Literal m))
      | Inr v \<Rightarrow>
          if \<not> truthy (Some v) \<or> typeof (Some v) \<noteq> TypeofObject
          then Inl (ErrorInstance (Translated ''formBuilder.messages.invalidFormat'' []))
          else if \<not> isArray (jprop v ''fields'')
          then Inl (ErrorInstance (Translated ''formBuilder.messages.missingFields'' []))
          else if \<not> list_all validateField (elements (jprop v ''fields''))
          then Inl (ErrorInstance (Translated ''formBuilder.messages.invalidFields'' []))
          else Inr v)"

record BuilderState =
  config :: json
  showImportModal :: bool
  importJson :: string
  importError :: message

definition handleImportSubmit :: "string + json \<Rightarrow> BuilderState \<Rightarrow> BuilderState" where
  "handleImportSubmit parsed st =
     (case checkImport parsed of
        Inr v \<Rightarrow>
          st\<lparr>config := v, showImportModal := False, importJson := [], importError := Literal []\<rparr>
      | Inl (ErrorInstance m) \<Rightarrow> st\<lparr>importError := m\<rparr>
      | Inl OtherValue \<Rightarrow>
          st\<lparr>importError := Translated ''formBuilder.messages.invalidJson'' []\<rparr>)"

text \<open>
  The live config of a typed field tree as a value: the object \<^verbatim>\<open>{ fields: [...] }\<close> with
  one object per field. A property that is \<^verbatim>\<open>undefined\<close> is left out (it is equal to a
  missing one for deep equality, and \<^verbatim>\<open>JSON.stringify\<close> skips it).
\<close>

definition baseJson :: "BaseField \<Rightarrow> string \<Rightarrow> (string \<times> json) list" where
  "baseJson b ty =
     [(''id'', JStr (fid b)), (''label'', JStr (label b)), (''required'', JBool (required b)),
      (''type'', JStr ty)]"

definition boundsJson :: "BaseField \<Rightarrow> (string \<times> json) list" where
  "boundsJson b =
     (case fmin b of Some n \<Rightarrow> [(''min'', JNum n)] | None \<Rightarrow> []) @
     (case fmax b of Some n \<Rightarrow> [(''max'', JNum n)] | None \<Rightarrow> [])"

fun fieldJson :: "FormField \<Rightarrow> json" where
  "fieldJson (TextField b) = JObj (baseJson b ''text'' @ boundsJson b)"
| "fieldJson (NumberField b) = JObj (baseJson b ''number'' @ boundsJson b)"
| "fieldJson (GroupField b kids) =
     JObj (baseJson b ''group'' @ [(''fields'', JArr (map fieldJson kids))] @ boundsJson b)"

definition configJson :: "FormField list \<Rightarrow> json" where
  "configJson flds = JObj [(''fields'', JArr (map fieldJson flds))]"

text \<open>
  \<^verbatim>\<open>JSON.parse(JSON.stringify(v))\<close> for a value built from null, booleans, numbers,
  strings, arrays and objects: the same value, except that \<^verbatim>\<open>JSON.stringify\<close> writes NaN
  and the infinities as \<^verbatim>\<open>null\<close>. \<open>reparsed (configJson c)\<close> is therefore what parsing
  \<^verbatim>\<open>exportedJson\<close> gives.
\<close>

fun reparsed :: "json \<Rightarrow> json" where
  "reparsed (JNum (Finite r)) = JNum (Finite r)"
| "reparsed (JNum n) = JNull"
| "reparsed (JArr xs) = JArr (map reparsed xs)"
| "reparsed (JObj kvs) = JObj (map (\<lambda>(k, v). (k, reparsed v)) kvs)"
| "reparsed v = v"

text \<open>Every field of the tree, at any depth, satisfies \<open>P\<close>.\<close>

fun every_field :: "(FormField \<Rightarrow> bool) \<Rightarrow> FormField list \<Rightarrow> bool" where
  "every_field P [] = True"
| "every_field P (GroupField b kids # rest) =
     (P (GroupField b kids) \<and> every_field P kids \<and> every_field P rest)"
| "every_field P (f # rest) = (P f \<and> every_field P rest)"

fun finite_bound :: "number option \<Rightarrow> bool" where
  "finite_bound None = True"
| "finite_bound (Some (Finite r)) = True"
| "finite_bound (Some n) = False"

section \<open>Example trees\<close>

definition plain :: "string \<Rightarrow> string \<Rightarrow> BaseField" where
  "plain i l = \<lparr>fid = i, label = l, required = False, fmin = None, fmax = None\<rparr>"

text \<open>
  A group \<^verbatim>\<open>g1\<close> holding a nested group \<^verbatim>\<open>h\<close> with a number field \<^verbatim>\<open>x\<close>, then its own
  text field \<^verbatim>\<open>x\<close>; a second group \<^verbatim>\<open>g2\<close> with a third field \<^verbatim>\<open>x\<close>.
\<close>

definition nestedDuplicate :: "FormField list" where
  "nestedDuplicate =
     [GroupField (plain ''g1'' ''G1'')
        [GroupField (plain ''h'' ''H'') [NumberField (plain ''x'' ''deep'')],
         TextField (plain ''x'' ''direct'')],
      GroupField (plain ''g2'' ''G2'') [TextField (plain ''x'' ''second'')]]"

text \<open>A number field that carries both bounds.\<close>

definition staleNumber :: FormField where
  "staleNumber = NumberField \<lparr>fid = ''n'', label = ''N'', required = False,
      fmin = Some (Finite 1), fmax = Some (Finite 5)\<rparr>"

text \<open>Two groups, each with a field \<^verbatim>\<open>x\<close> as its second child.\<close>

definition twoGroups :: "FormField list" where
  "twoGroups =
     [GroupField (plain ''g1'' ''G1'') [TextField (plain ''a'' ''A''), TextField (plain ''x'' ''X1'')],
      GroupField (plain ''g2'' ''G2'') [TextField (plain ''b'' ''B''), TextField (plain ''x'' ''X2'')]]"

text \<open>A conversion of strings that reads no string as a number.\<close>

definition nanOnly :: "string \<Rightarrow> number" where
  "nanOnly s = NaN"

definition percentField :: BaseField where
  "percentField = \<lparr>fid = ''p'', label = ''Percent'', required = True,
      fmin = Some (Finite 0), fmax = Some (Finite 100)\<rparr>"

text \<open>A builder with an empty form and the import dialog open.\<close>

definition emptyBuilder :: BuilderState where
  "emptyBuilder = \<lparr>config = JObj [(''fields'', JArr [])], showImportModal = True,
      importJson = ''pasted'', importError = Literal []\<rparr>"

text \<open>A form nested three levels deep, and a form whose only field has an empty label.\<close>

definition importedConfig :: "FormField list" where
  "importedConfig =
     [GroupField (plain ''g'' ''G'')
        [GroupField (plain ''h'' ''H'') [NumberField percentField],
         TextField (plain ''t'' ''T'')]]"

definition unlabelled :: "FormField list" where
  "unlabelled = [TextField (plain ''a'' [])]"



text \<open>Two sibling fields with the same label, and submitted data that fills both.\<close>

definition sameLabel :: "FormField list" where
  "sameLabel = [TextField (plain ''a'' ''Name''), NumberField (plain ''b'' ''Name'')]"

definition sameLabelData :: FormData where
  "sameLabelData = [(''a'', Str ''Ann''), (''b'', Num (Finite 7))]"

text \<open>
  Two groups that both hold a field \<^verbatim>\<open>x\<close>: the first at the middle of three positions,
  the second at its first position.
\<close>

definition twoBranches :: "FormField list" where
  "twoBranches =
     [GroupField (plain ''g1'' ''G1'')
        [TextField (plain ''a'' ''A''), TextField (plain ''x'' ''X1''), TextField (plain ''c'' ''C'')],
      GroupField (plain ''g2'' ''G2'') [TextField (plain ''x'' ''X2''), TextField (plain ''b'' ''B'')]]"




section \<open>The locator with a parent path\<close>

text \<open>
  C1. With the parent path \<^verbatim>\<open>['g1']\<close>, \<^verbatim>\<open>findField\<close> returns the number field \<^verbatim>\<open>x\<close> of the
  nested group \<^verbatim>\<open>h\<close>, whose parent path is \<^verbatim>\<open>['g1', 'h']\<close>, and not the text field \<^verbatim>\<open>x\<close> that
  is the direct child of \<^verbatim>\<open>g1\<close>: the sequence it reports is the one at \<^verbatim>\<open>['g1', 'h']\<close>, not
  the one at \<^verbatim>\<open>['g1']\<close>, and \<^verbatim>\<open>findFieldByPath\<close> hands the nested field to its caller.
\<close>

theorem findField_returns_nested_match:
  "findField ''x'' nestedDuplicate (Some [''g1'']) =
     Some \<lparr>field = NumberField (plain ''x'' ''deep''),
           parent = [NumberField (plain ''x'' ''deep'')], index = 0\<rparr>
   \<and> findFieldByPath ''x'' [''g1''] nestedDuplicate = Some (NumberField (plain ''x'' ''deep''))
   \<and> levels_at nestedDuplicate [''g1'', ''h''] = [[NumberField (plain ''x'' ''deep'')]]
   \<and> levels_at nestedDuplicate [''g1''] =
        [[GroupField (plain ''h'' ''H'') [NumberField (plain ''x'' ''deep'')],
          TextField (plain ''x'' ''direct'')]]"
proof -
  have "findField ''x'' nestedDuplicate (Some [''g1'']) =
     Some \<lparr>field = NumberField (plain ''x'' ''deep''),
           parent = [NumberField (plain ''x'' ''deep'')], index = 0\<rparr>"
    by (simp add: nestedDuplicate_def findField_def searchRecursive.simps pathStartsWith_def
          every_matches_def at_index_def plain_def)
  moreover from this
  have "findFieldByPath ''x'' [''g1''] nestedDuplicate = Some (NumberField (plain ''x'' ''deep''))"
    by (simp add: findFieldByPath_def)
  moreover have "levels_at nestedDuplicate [''g1''] =
        [[GroupField (plain ''h'' ''H'') [NumberField (plain ''x'' ''deep'')],
          TextField (plain ''x'' ''direct'')]]"
    by (simp add: nestedDuplicate_def plain_def)
  moreover have "levels_at nestedDuplicate [''g1'', ''h''] = [[NumberField (plain ''x'' ''deep'')]]"
    by (simp add: nestedDuplicate_def plain_def)
  ultimately show ?thesis by simp
qed

section \<open>Re-typing a field to group\<close>

text \<open>
  C2. \<^verbatim>\<open>updateField(F.id, { type: 'group' })\<close> on a number field with \<^verbatim>\<open>min = 1\<close> and
  \<^verbatim>\<open>max = 5\<close>: the branch that converts to group spreads the old field, so the result is
  a group that still carries both bounds (with the empty child sequence).
\<close>

theorem updateField_to_group_keeps_bounds:
  "updateField ''n'' (no_updates\<lparr>u_type := Some TypeGroup\<rparr>) [staleNumber] =
     [GroupField \<lparr>fid = ''n'', label = ''N'', required = False,
        fmin = Some (Finite 1), fmax = Some (Finite 5)\<rparr> []]"
  by (simp add: updateField_def staleNumber_def updateMatched_def no_updates_def spread_def nullish_def)

section \<open>Moving a field\<close>

text \<open>
  C7. When the id is not at the level being scanned, \<^verbatim>\<open>moveInFields\<close> maps over every
  group of that level: with \<^verbatim>\<open>x\<close> in two groups, one call of \<^verbatim>\<open>moveField('x', 'up')\<close>
  reorders both sibling sequences.
\<close>

theorem moveField_moves_every_branch:
  "moveField ''x'' Up twoGroups =
     [GroupField (plain ''g1'' ''G1'') [TextField (plain ''x'' ''X1''), TextField (plain ''a'' ''A'')],
      GroupField (plain ''g2'' ''G2'') [TextField (plain ''x'' ''X2''), TextField (plain ''b'' ''B'')]]"
  by (simp add: moveField_def twoGroups_def plain_def moveInFields.simps)

section \<open>Number bounds\<close>

lemma num_lt_not_NaN: "num_lt n m \<Longrightarrow> n \<noteq> NaN"
  by (cases n) auto

text \<open>
  C9. For a number field with \<^verbatim>\<open>min = 0\<close> and \<^verbatim>\<open>max = 100\<close> and a value that is not empty,
  validation passes exactly when the value, read as a number, is a finite number of the
  closed range from 0 to 100; 0 and 100 pass, -1 gets the minimum message and 101 the
  maximum message. For any bounds, a value below the minimum and above the maximum gets
  the minimum message only, since the minimum is tested first.
\<close>

theorem validateValue_bounds:
  assumes "fmin b = Some (Finite 0)" and "fmax b = Some (Finite 100)"
  shows "(\<forall>v. \<not> isEmptyValue v \<longrightarrow>
            (validateValue toNumber (NumberField b) v = None
               \<longleftrightarrow> (\<exists>r. numValue toNumber v = Finite r \<and> 0 \<le> r \<and> r \<le> 100)))
       \<and> validateValue toNumber (NumberField b) (Num (Finite 0)) = None
       \<and> validateValue toNumber (NumberField b) (Num (Finite 100)) = None
       \<and> validateValue toNumber (NumberField b) (Num (Finite (- 1))) =
           Some (Translated ''formBuilder.validation.minValue'' [(''min'', Finite 0)])
       \<and> validateValue toNumber (NumberField b) (Num (Finite 101)) =
           Some (Translated ''formBuilder.validation.maxValue'' [(''max'', Finite 100)])
       \<and> (\<forall>c mn mx v. fmin c = Some mn \<and> fmax c = Some mx \<and> \<not> isEmptyValue v
              \<and> num_lt (numValue toNumber v) mn \<and> num_gt (numValue toNumber v) mx
            \<longrightarrow> validateValue toNumber (NumberField c) v =
                  Some (Translated ''formBuilder.validation.minValue'' [(''min'', mn)]))"
proof (intro conjI allI impI)
  fix v assume ne: "\<not> isEmptyValue v"
  then have "v \<noteq> Null" by auto
  with ne assms show "validateValue toNumber (NumberField b) v = None
               \<longleftrightarrow> (\<exists>r. numValue toNumber v = Finite r \<and> 0 \<le> r \<and> r \<le> 100)"
    by (cases "numValue toNumber v")
       (auto simp: validateValue_def num_gt_def)
next
  show "validateValue toNumber (NumberField b) (Num (Finite 0)) = None"
    using assms by (simp add: validateValue_def num_gt_def)
next
  show "validateValue toNumber (NumberField b) (Num (Finite 100)) = None"
    using assms by (simp add: validateValue_def num_gt_def)
next
  show "validateValue toNumber (NumberField b) (Num (Finite (- 1))) =
           Some (Translated ''formBuilder.validation.minValue'' [(''min'', Finite 0)])"
    using assms by (simp add: validateValue_def num_gt_def)
next
  show "validateValue toNumber (NumberField b) (Num (Finite 101)) =
           Some (Translated ''formBuilder.validation.maxValue'' [(''max'', Finite 100)])"
    using assms by (simp add: validateValue_def num_gt_def)
next
  fix c :: BaseField and mn mx v
  assume h: "fmin c = Some mn \<and> fmax c = Some mx \<and> \<not> isEmptyValue v
              \<and> num_lt (numValue toNumber v) mn \<and> num_gt (numValue toNumber v) mx"
  then have "numValue toNumber v \<noteq> NaN" by (auto dest: num_lt_not_NaN)
  moreover from h have "v \<noteq> Null" by auto
  ultimately show "validateValue toNumber (NumberField c) v =
                  Some (Translated ''formBuilder.validation.minValue'' [(''min'', mn)])"
    using h by (simp add: validateValue_def)
qed
theorem validateValue_bounds_witness:
  "fmin percentField = Some (Finite 0) \<and> fmax percentField = Some (Finite 100)
   \<and> \<not> isEmptyValue (Num (Finite 50))
   \<and> validateValue nanOnly (NumberField percentField) (Num (Finite 50)) = None
   \<and> validateValue nanOnly (NumberField percentField) (Num (Finite 101)) =
           Some (Translated ''formBuilder.validation.maxValue'' [(''max'', Finite 100)])
   \<and> validateValue nanOnly (NumberField percentField) (Str ''abc'') =
           Some (Translated ''formBuilder.validation.invalidNumber'' [])"
proof -
  have a: "fmin percentField = Some (Finite 0)" and b: "fmax percentField = Some (Finite 100)"
    by (simp_all add: percentField_def)
  have e: "\<not> isEmptyValue (Num (Finite 50))" by simp
  have n: "numValue nanOnly (Num (Finite 50)) = Finite 50" by simp
  from validateValue_bounds[OF a b, of nanOnly] e n
  have "validateValue nanOnly (NumberField percentField) (Num (Finite 50)) = None"
    by auto
  moreover have "validateValue nanOnly (NumberField percentField) (Str ''abc'') =
           Some (Translated ''formBuilder.validation.invalidNumber'' [])"
    by (simp add: validateValue_def percentField_def nanOnly_def is_space_def)
  ultimately show ?thesis using validateValue_bounds[OF a b, of nanOnly] a b by simp
qed

section \<open>Path-qualified keys\<close>






















section \<open>Import is all or nothing\<close>

text \<open>
  C4. For every outcome of parsing the pasted text and every state of the builder, the
  import does exactly one of five things. It fails at the first check that does not
  hold, in the order: the text does not parse; the parsed value is falsy or not of type
  object; its \<^verbatim>\<open>fields\<close> is not an array; some element of \<^verbatim>\<open>fields\<close> is not a valid field.
  Then only \<^verbatim>\<open>importError\<close> changes: to the message of the parser's error in the first case
  and to the translation of \<^verbatim>\<open>invalidFormat\<close>, \<^verbatim>\<open>missingFields\<close>, \<^verbatim>\<open>invalidFields\<close> in the
  others; the config is unchanged. Or every check holds, and the config becomes the
  parsed value itself, the dialog closes and the text and the error are cleared.
\<close>

theorem handleImportSubmit_all_or_nothing:
  "(\<exists>m. parsed = Inl m \<and> handleImportSubmit parsed st = st\<lparr>importError := Literal m\<rparr>)
   \<or> (\<exists>v. parsed = Inr v \<and> (\<not> truthy (Some v) \<or> typeof (Some v) \<noteq> TypeofObject)
         \<and> handleImportSubmit parsed st =
             st\<lparr>importError := Translated ''formBuilder.messages.invalidFormat'' []\<rparr>)
   \<or> (\<exists>v. parsed = Inr v \<and> truthy (Some v) \<and> typeof (Some v) = TypeofObject
         \<and> \<not> isArray (jprop v ''fields'')
         \<and> handleImportSubmit parsed st =
             st\<lparr>importError := Translated ''formBuilder.messages.missingFields'' []\<rparr>)
   \<or> (\<exists>v. parsed = Inr v \<and> truthy (Some v) \<and> typeof (Some v) = TypeofObject
         \<and> isArray (jprop v ''fields'')
         \<and> \<not> list_all validateField (elements (jprop v ''fields''))
         \<and> handleImportSubmit parsed st =
             st\<lparr>importError := Translated ''formBuilder.messages.invalidFields'' []\<rparr>)
   \<or> (\<exists>v. parsed = Inr v \<and> truthy (Some v) \<and> typeof (Some v) = TypeofObject
         \<and> isArray (jprop v ''fields'')
         \<and> list_all validateField (elements (jprop v ''fields''))
         \<and> handleImportSubmit parsed st =
             st\<lparr>config := v, showImportModal := False, importJson := [],
                importError := Literal []\<rparr>)"
  by (cases parsed) (auto simp: handleImportSubmit_def checkImport_def)

theorem handleImportSubmit_all_or_nothing_witness:
  "handleImportSubmit (Inr (JObj [])) emptyBuilder =
     emptyBuilder\<lparr>importError := Translated ''formBuilder.messages.missingFields'' []\<rparr>
   \<and> handleImportSubmit (Inl ''Unexpected token'') emptyBuilder =
     emptyBuilder\<lparr>importError := Literal ''Unexpected token''\<rparr>
   \<and> handleImportSubmit (Inr JNull) emptyBuilder =
     emptyBuilder\<lparr>importError := Translated ''formBuilder.messages.invalidFormat'' []\<rparr>"
  using handleImportSubmit_all_or_nothing[of "Inr (JObj [])" emptyBuilder]
        handleImportSubmit_all_or_nothing[of "Inl ''Unexpected token''" emptyBuilder]
        handleImportSubmit_all_or_nothing[of "Inr JNull" emptyBuilder]
  by simp

section \<open>Export and re-import\<close>

lemma validateField_text:
  "validateField (JObj ((''id'', JStr i) # (''label'', JStr l) # (''required'', JBool r) #
      (''type'', JStr ''text'') # rest)) = (i \<noteq> [] \<and> l \<noteq> [])"
  by (simp add: validateField.simps)

lemma validateField_number:
  "validateField (JObj ((''id'', JStr i) # (''label'', JStr l) # (''required'', JBool r) #
      (''type'', JStr ''number'') # rest)) = (i \<noteq> [] \<and> l \<noteq> [])"
  by (simp add: validateField.simps)

lemma validateField_group:
  "validateField (JObj ((''id'', JStr i) # (''label'', JStr l) # (''required'', JBool r) #
      (''type'', JStr ''group'') # (''fields'', JArr xs) # rest)) =
     (i \<noteq> [] \<and> l \<noteq> [] \<and> list_all validateField xs)"
  by (subst validateField.simps) simp

lemma every_field_Cons:
  "every_field P (f # rest) = (every_field P [f] \<and> every_field P rest)"
  by (cases f) auto

lemma every_field_set:
  "every_field P fs = (\<forall>f \<in> set fs. every_field P [f])"
proof (induction fs)
  case Nil then show ?case by simp
next
  case (Cons f fs)
  then show ?case using every_field_Cons[of P f fs] by auto
qed

lemma validateField_fieldJson:
  "every_field (\<lambda>f. field_id f \<noteq> [] \<and> label (base f) \<noteq> []) [f]
     \<Longrightarrow> validateField (reparsed (fieldJson f))"
proof (induction f)
  case (TextField b)
  then show ?case by (simp add: baseJson_def validateField_text)
next
  case (NumberField b)
  then show ?case by (simp add: baseJson_def validateField_number)
next
  case (GroupField b kids)
  from GroupField.prems have kids: "\<forall>k \<in> set kids. every_field (\<lambda>f. field_id f \<noteq> [] \<and> label (base f) \<noteq> []) [k]"
    using every_field_set[of _ kids] by simp
  with GroupField.IH have "list_all validateField (map reparsed (map fieldJson kids))"
    by (simp add: list_all_iff)
  with GroupField.prems show ?case
    by (simp add: baseJson_def validateField_group)
qed

lemma reparsed_bounds:
  "finite_bound (fmin b) \<Longrightarrow> finite_bound (fmax b) \<Longrightarrow>
     map (\<lambda>(k, v). (k, reparsed v)) (boundsJson b) = boundsJson b"
  by (cases "fmin b" rule: finite_bound.cases; cases "fmax b" rule: finite_bound.cases)
     (auto simp: boundsJson_def)

lemma reparsed_fieldJson:
  "every_field (\<lambda>f. finite_bound (fmin (base f)) \<and> finite_bound (fmax (base f))) [f]
     \<Longrightarrow> reparsed (fieldJson f) = fieldJson f"
proof (induction f)
  case (TextField b)
  then show ?case by (simp add: baseJson_def reparsed_bounds)
next
  case (NumberField b)
  then show ?case by (simp add: baseJson_def reparsed_bounds)
next
  case (GroupField b kids)
  from GroupField.prems have "\<forall>k \<in> set kids. every_field (\<lambda>f. finite_bound (fmin (base f)) \<and> finite_bound (fmax (base f))) [k]"
    using every_field_set[of _ kids] by simp
  with GroupField.IH have "map reparsed (map fieldJson kids) = map fieldJson kids"
    by (simp add: map_idI)
  with GroupField.prems show ?case
    by (simp add: baseJson_def reparsed_bounds)
qed

text \<open>
  C5, as the code has it. For every field tree in which every id and every label is a
  non-empty string, importing the document that parsing the export gives succeeds and
  makes that document the config; when moreover every \<^verbatim>\<open>min\<close> and \<^verbatim>\<open>max\<close> that is present
  is a finite number, the document is the original config, ids and order included.
\<close>

theorem export_import_roundtrip:
  assumes "every_field (\<lambda>f. field_id f \<noteq> [] \<and> label (base f) \<noteq> []) c"
  shows "handleImportSubmit (Inr (reparsed (configJson c))) st =
           st\<lparr>config := reparsed (configJson c), showImportModal := False, importJson := [],
              importError := Literal []\<rparr>
       \<and> (every_field (\<lambda>f. finite_bound (fmin (base f)) \<and> finite_bound (fmax (base f))) c
            \<longrightarrow> reparsed (configJson c) = configJson c)"
proof
  from assms have "\<forall>f \<in> set c. validateField (reparsed (fieldJson f))"
    using every_field_set[of _ c] validateField_fieldJson by blast
  then have "list_all validateField (map reparsed (map fieldJson c))"
    by (simp add: list_all_iff)
  then show "handleImportSubmit (Inr (reparsed (configJson c))) st =
           st\<lparr>config := reparsed (configJson c), showImportModal := False, importJson := [],
              importError := Literal []\<rparr>"
    by (simp add: handleImportSubmit_def checkImport_def configJson_def)
next
  show "every_field (\<lambda>f. finite_bound (fmin (base f)) \<and> finite_bound (fmax (base f))) c
            \<longrightarrow> reparsed (configJson c) = configJson c"
  proof
    assume "every_field (\<lambda>f. finite_bound (fmin (base f)) \<and> finite_bound (fmax (base f))) c"
    then have "\<forall>f \<in> set c. reparsed (fieldJson f) = fieldJson f"
      using every_field_set[of _ c] reparsed_fieldJson by blast
    then have "map reparsed (map fieldJson c) = map fieldJson c"
      by (simp add: map_idI)
    then show "reparsed (configJson c) = configJson c"
      by (simp add: configJson_def)
  qed
qed

lemma importedConfig_ok:
  "every_field (\<lambda>f. field_id f \<noteq> [] \<and> label (base f) \<noteq> []) importedConfig"
  "every_field (\<lambda>f. finite_bound (fmin (base f)) \<and> finite_bound (fmax (base f))) importedConfig"
  by (simp_all add: importedConfig_def plain_def percentField_def)

theorem export_import_roundtrip_witness:
  "every_field (\<lambda>f. field_id f \<noteq> [] \<and> label (base f) \<noteq> []) importedConfig
   \<and> handleImportSubmit (Inr (reparsed (configJson importedConfig))) emptyBuilder =
       \<lparr>config = configJson importedConfig, showImportModal = False, importJson = [],
          importError = Literal []\<rparr>"
proof -
  note rt = export_import_roundtrip[OF importedConfig_ok(1), of emptyBuilder]
  from rt importedConfig_ok(2)
  have r: "reparsed (configJson importedConfig) = configJson importedConfig" by blast
  from rt have "handleImportSubmit (Inr (reparsed (configJson importedConfig))) emptyBuilder =
      emptyBuilder\<lparr>config := reparsed (configJson importedConfig), showImportModal := False,
        importJson := [], importError := Literal []\<rparr>" by blast
  then show ?thesis using importedConfig_ok(1) unfolding r by (simp add: emptyBuilder_def)
qed

text \<open>
  For arbitrary labels the claim fails: a field whose label is the empty string is
  exported, and the import of that document is rejected by \<^verbatim>\<open>!field.label\<close>.
\<close>

theorem export_import_empty_label_counterexample:
  "handleImportSubmit (Inr (reparsed (configJson unlabelled))) emptyBuilder =
     emptyBuilder\<lparr>importError := Translated ''formBuilder.messages.invalidFields'' []\<rparr>
   \<and> config (handleImportSubmit (Inr (reparsed (configJson unlabelled))) emptyBuilder)
       \<noteq> configJson unlabelled"
  by (simp add: handleImportSubmit_def checkImport_def configJson_def unlabelled_def plain_def
        baseJson_def boundsJson_def validateField.simps emptyBuilder_def)

section \<open>Validation of the whole tree\<close>










section \<open>Labeled export of a submission\<close>

lemma labelLoop_append:
  "labelLoop data cur p (fs @ gs) r = labelLoop data cur p gs (labelLoop data cur p fs r)"
  by (induction fs arbitrary: r) simp_all

lemma labelLoop_untouched:
  "\<forall>z \<in> set zs. label (base z) = k \<longrightarrow> labelEntry data cur p z = None
    \<Longrightarrow> map_of (labelLoop data cur p zs r) k = map_of r k"
proof (induction zs arbitrary: r)
  case Nil then show ?case by simp
next
  case (Cons z zs)
  then show ?case by (auto simp: setOwn_def update_conv' split: option.splits)
qed

lemma labelLoop_keys:
  "fst ` set (labelLoop data cur p fs r) =
     fst ` set r \<union>
     (set (map (\<lambda>f. label (base f)) (filter (\<lambda>f. labelEntry data cur p f \<noteq> None) fs))
        - {''__proto__''})"
proof (induction fs arbitrary: r)
  case Nil then show ?case by simp
next
  case (Cons f fs)
  then show ?case by (auto simp: setOwn_def dom_update split: option.splits)
qed

lemma labelLoop_distinct:
  "distinct (map fst r) \<Longrightarrow> distinct (map fst (labelLoop data cur p fs r))"
proof (induction fs arbitrary: r)
  case Nil then show ?case by simp
next
  case (Cons f fs)
  then show ?case by (auto simp: setOwn_def distinct_update split: option.splits)
qed

lemma card_less_length: "\<not> distinct xs \<Longrightarrow> card (set xs) < length xs"
  using card_distinct[of xs] card_length[of xs] by linarith

lemma labelEntry_holdsValue:
  "labelEntry data cur p f =
     (if holdsValue data cur p f then Some (writtenValue data cur p f) else None)"
  by (cases f; cases "getProp cur (field_id f)") (simp_all add: Let_def)

lemma writers_holdsValue:
  "filter (\<lambda>f. labelEntry data cur p f \<noteq> None) fs = filter (holdsValue data cur p) fs"
  by (simp add: labelEntry_holdsValue)

text \<open>
  C10, as the code has it. The output of \<^verbatim>\<open>buildLabeledData\<close> is keyed by label. Let \<open>f1\<close>
  and \<open>f2\<close> be fields of the same level, \<open>f1\<close> before \<open>f2\<close>, with the same label, which is
  not \<^verbatim>\<open>__proto__\<close>; let each hold a value (for a text or number field a non-empty value
  in the submitted data, for a group a non-empty output of its children), and let no
  later sibling with that label hold a value. Then the entry under the label is the
  value of \<open>f2\<close>, and the output of this level has fewer entries than there are siblings
  that hold a value.
\<close>

theorem buildLabeledData_same_label:
  assumes "submittedAt (Obj data) p = Some cur"
    and "holdsValue data cur p f1" and "holdsValue data cur p f2"
    and "label (base f1) = label (base f2)" and "label (base f2) \<noteq> ''__proto__''"
    and "\<forall>z \<in> set zs. label (base z) = label (base f2) \<longrightarrow> \<not> holdsValue data cur p z"
  shows "map_of (buildLabeledData data (xs @ f1 # ys @ f2 # zs) p) (label (base f2))
           = Some (writtenValue data cur p f2)
       \<and> length (buildLabeledData data (xs @ f1 # ys @ f2 # zs) p)
           < length (filter (holdsValue data cur p) (xs @ f1 # ys @ f2 # zs))"
proof
  let ?fs = "xs @ f1 # ys @ f2 # zs"
  have e2: "labelEntry data cur p f2 = Some (writtenValue data cur p f2)"
    using assms(3) by (simp add: labelEntry_holdsValue)
  have b: "buildLabeledData data ?fs p = labelLoop data cur p ?fs []"
    using assms(1) by simp
  have "?fs = (xs @ f1 # ys) @ f2 # zs" by simp
  then have "labelLoop data cur p ?fs [] =
      labelLoop data cur p zs
        (setOwn (label (base f2)) (writtenValue data cur p f2)
           (labelLoop data cur p (xs @ f1 # ys) []))"
    using e2 by (simp only: labelLoop_append labelLoop.simps option.case)
  then show "map_of (buildLabeledData data ?fs p) (label (base f2))
      = Some (writtenValue data cur p f2)"
    using labelLoop_untouched[of zs "label (base f2)" data cur p] assms(6) b assms(5)
    by (simp add: setOwn_def update_conv' labelEntry_holdsValue)
next
  let ?fs = "xs @ f1 # ys @ f2 # zs"
  let ?ws = "filter (holdsValue data cur p) ?fs"
  let ?ls = "map (\<lambda>f. label (base f)) ?ws"
  have b: "buildLabeledData data ?fs p = labelLoop data cur p ?fs []"
    using assms(1) by simp
  have d: "distinct (map fst (labelLoop data cur p ?fs []))"
    by (rule labelLoop_distinct) simp
  have "length (labelLoop data cur p ?fs []) = card (fst ` set (labelLoop data cur p ?fs []))"
    using distinct_card[OF d] by simp
  also have "\<dots> = card (set ?ls - {''__proto__''})"
    by (simp only: labelLoop_keys writers_holdsValue) simp
  also have "\<dots> \<le> card (set ?ls)"
    by (rule card_mono) auto
  also have "\<dots> < length ?ls"
  proof (rule card_less_length)
    have "?ls = map (\<lambda>f. label (base f)) (filter (holdsValue data cur p) xs)
        @ label (base f1) # map (\<lambda>f. label (base f)) (filter (holdsValue data cur p) ys)
        @ label (base f2) # map (\<lambda>f. label (base f)) (filter (holdsValue data cur p) zs)"
      using assms(2,3) by simp
    then show "\<not> distinct ?ls" using assms(4) by simp
  qed
  finally show "length (buildLabeledData data ?fs p) < length ?ws"
    using b by simp
qed

theorem buildLabeledData_same_label_witness:
  "buildLabeledData sameLabelData sameLabel [] = [(''Name'', Num (Finite 7))]
   \<and> length (filter (holdsValue sameLabelData (Obj sameLabelData) []) sameLabel) = 2"
proof -
  have a: "submittedAt (Obj sameLabelData) [] = Some (Obj sameLabelData)" by simp
  have v1: "holdsValue sameLabelData (Obj sameLabelData) [] (TextField (plain ''a'' ''Name''))"
    by (simp add: sameLabelData_def plain_def)
  have v2: "holdsValue sameLabelData (Obj sameLabelData) [] (NumberField (plain ''b'' ''Name''))"
    by (simp add: sameLabelData_def plain_def)
  have l: "label (base (TextField (plain ''a'' ''Name''))) = label (base (NumberField (plain ''b'' ''Name'')))"
    by (simp add: plain_def)
  have n: "label (base (NumberField (plain ''b'' ''Name''))) \<noteq> ''__proto__''"
    by (simp add: plain_def)
  have z: "\<forall>z \<in> set []. label (base z) = label (base (NumberField (plain ''b'' ''Name'')))
      \<longrightarrow> \<not> holdsValue sameLabelData (Obj sameLabelData) [] z"
    by simp
  from buildLabeledData_same_label[OF a v1 v2 l n z, of "[]" "[]"]
  have m: "map_of (buildLabeledData sameLabelData sameLabel []) ''Name'' = Some (Num (Finite 7))"
    and c: "length (buildLabeledData sameLabelData sameLabel [])
           < length (filter (holdsValue sameLabelData (Obj sameLabelData) []) sameLabel)"
    by (simp_all add: sameLabel_def sameLabelData_def plain_def)
  have "buildLabeledData sameLabelData sameLabel [] = [(''Name'', Num (Finite 7))]"
    by (simp add: sameLabel_def sameLabelData_def plain_def setOwn_def)
  moreover have "length (filter (holdsValue sameLabelData (Obj sameLabelData) []) sameLabel) = 2"
    by (simp add: sameLabel_def sameLabelData_def plain_def)
  ultimately show ?thesis using m c by simp
qed

text \<open>
  For the label \<^verbatim>\<open>__proto__\<close> the claim fails: both fields hold a value, and the output
  has no entry at all, since \<^verbatim>\<open>result['__proto__'] = value\<close> stores nothing.
\<close>

theorem buildLabeledData_proto_label_counterexample:
  "holdsValue sameLabelData (Obj sameLabelData) [] (TextField (plain ''a'' ''__proto__''))
   \<and> holdsValue sameLabelData (Obj sameLabelData) [] (NumberField (plain ''b'' ''__proto__''))
   \<and> buildLabeledData sameLabelData
         [TextField (plain ''a'' ''__proto__''), NumberField (plain ''b'' ''__proto__'')] [] = []"
  by (simp add: sameLabelData_def plain_def setOwn_def)

section \<open>Moving up and then down\<close>

text \<open>First the case of an id that occurs once in the tree.\<close>

lemma findIndex_None_iff: "findIndex p xs = None \<longleftrightarrow> (\<forall>x \<in> set xs. \<not> p x)"
  by (induction xs) auto

lemma findIndex_Some_iff:
  "findIndex p xs = Some k \<longleftrightarrow> (k < length xs \<and> p (xs ! k) \<and> (\<forall>j < k. \<not> p (xs ! j)))"
proof (induction xs arbitrary: k)
  case Nil then show ?case by simp
next
  case (Cons x xs)
  show ?case
  proof (cases "p x")
    case True
    then show ?thesis by (cases k) auto
  next
    case False
    show ?thesis
    proof (cases k)
      case 0
      with False show ?thesis by auto
    next
      case (Suc k')
      have "(\<forall>j < Suc k'. \<not> p ((x # xs) ! j)) \<longleftrightarrow> (\<forall>j < k'. \<not> p (xs ! j))"
        using False by (auto simp: nth_Cons' less_Suc_eq_0_disj)
      with Suc False Cons.IH[of k'] show ?thesis by auto
    qed
  qed
qed

lemma count_id_Cons: "count_id X (f # rest) = count_id X [f] + count_id X rest"
  by (cases f) simp_all

lemma count_id_append: "count_id X (xs @ ys) = count_id X xs + count_id X ys"
proof (induction xs)
  case Nil then show ?case by simp
next
  case (Cons x xs)
  then show ?case using count_id_Cons[of X x "xs @ ys"] count_id_Cons[of X x xs] by simp
qed

lemma count_id_single_pos: "field_id f = X \<Longrightarrow> 0 < count_id X [f]"
  by (cases f) simp_all

lemma count_id_zero_top: "count_id X fs = 0 \<Longrightarrow> \<forall>f \<in> set fs. field_id f \<noteq> X"
  by (induction X fs rule: count_id.induct) (auto split: if_splits)

lemma count_zero_findIndex: "count_id X fs = 0 \<Longrightarrow> findIndex (\<lambda>f. field_id f = X) fs = None"
  using count_id_zero_top by (simp add: findIndex_None_iff)

lemma count_zero_moveEach: "count_id X fs = 0 \<Longrightarrow> moveEach d X fs = fs"
  by (induction X fs rule: count_id.induct)
     (auto simp: count_zero_findIndex moveInFields.simps split: if_splits)

lemma count_zero_moveInFields: "count_id X fs = 0 \<Longrightarrow> moveInFields d X fs = fs"
  by (simp add: count_zero_findIndex count_zero_moveEach moveInFields.simps)

lemma searchRecursive_None_scope:
  "searchRecursive X None fs cp = searchLoop X None fs cp True 0 fs"
  by (simp add: searchRecursive.simps)

lemma count_zero_searchLoop:
  "count_id X fs = 0 \<Longrightarrow> searchLoop X None fl cp True i fs = None"
proof (induction X fs arbitrary: fl cp i rule: count_id.induct)
  case (1 X) then show ?case by simp
next
  case (2 X b kids rest)
  then show ?case by (auto simp: searchRecursive_None_scope Let_def split: if_splits)
next
  case (3 X b rest)
  then show ?case by (auto split: if_splits)
next
  case (4 X b rest)
  then show ?case by (auto split: if_splits)
qed

lemma searchLoop_first:
  "count_id X pre = 0 \<Longrightarrow> field_id f = X \<Longrightarrow>
   searchLoop X None fl cp True i (pre @ f # post) = Some \<lparr>field = f, parent = fl, index = i + length pre\<rparr>"
proof (induction X pre arbitrary: i rule: count_id.induct)
  case (1 X) then show ?case by simp
next
  case (2 X b kids rest)
  then have "count_id X kids = 0" "count_id X rest = 0" "fid b \<noteq> X" by (auto split: if_splits)
  with 2 show ?case
    by (simp add: searchRecursive_None_scope count_zero_searchLoop Let_def)
next
  case (3 X b rest)
  then show ?case by (auto split: if_splits)
next
  case (4 X b rest)
  then show ?case by (auto split: if_splits)
qed


lemma unique_top:
  assumes c: "count_id X fs = 1" and fi: "findIndex (\<lambda>f. field_id f = X) fs = Some idx"
  shows "count_id X (take idx fs) = 0" and "count_id X (drop (Suc idx) fs) = 0"
proof -
  from fi have lt: "idx < length fs" and p: "field_id (fs ! idx) = X"
    by (simp_all add: findIndex_Some_iff)
  have "fs = take idx fs @ fs ! idx # drop (Suc idx) fs"
    using lt by (simp add: id_take_nth_drop)
  then have "count_id X fs = count_id X (take idx fs) + count_id X [fs ! idx]
      + count_id X (drop (Suc idx) fs)"
    using count_id_append[of X "take idx fs" "fs ! idx # drop (Suc idx) fs"]
          count_id_Cons[of X "fs ! idx" "drop (Suc idx) fs"] by simp
  with c count_id_single_pos[OF p]
  show "count_id X (take idx fs) = 0" and "count_id X (drop (Suc idx) fs) = 0" by simp_all
qed

lemma unique_top_other:
  assumes c: "count_id X fs = 1" and fi: "findIndex (\<lambda>f. field_id f = X) fs = Some idx"
    and j: "j < length fs" "j \<noteq> idx"
  shows "field_id (fs ! j) \<noteq> X"
proof (cases "j < idx")
  case True
  with fi show ?thesis by (simp add: findIndex_Some_iff)
next
  case False
  with j have "Suc idx \<le> j" by simp
  then have "fs ! j = drop (Suc idx) fs ! (j - Suc idx)" using j by simp
  moreover have "j - Suc idx < length (drop (Suc idx) fs)" using j False by simp
  ultimately have "fs ! j \<in> set (drop (Suc idx) fs)" by (metis nth_mem)
  with count_id_zero_top[OF unique_top(2)[OF c fi]] show ?thesis by blast
qed

lemma search_top:
  assumes c: "count_id X fs = 1" and fi: "findIndex (\<lambda>f. field_id f = X) fs = Some idx"
  shows "searchRecursive X None fs cp = Some \<lparr>field = fs ! idx, parent = fs, index = idx\<rparr>"
proof -
  from fi have lt: "idx < length fs" and p: "field_id (fs ! idx) = X"
    by (simp_all add: findIndex_Some_iff)
  have d: "fs = take idx fs @ fs ! idx # drop (Suc idx) fs"
    using lt by (simp add: id_take_nth_drop)
  have "searchLoop X None fs cp True 0 (take idx fs @ fs ! idx # drop (Suc idx) fs) =
      Some \<lparr>field = fs ! idx, parent = fs, index = 0 + length (take idx fs)\<rparr>"
    by (rule searchLoop_first[OF unique_top(1)[OF c fi] p])
  with d lt show ?thesis by (simp add: searchRecursive_None_scope)
qed

lemma move_up_at:
  assumes "findIndex (\<lambda>f. field_id f = X) fs = Some idx" "0 < idx"
  shows "moveInFields Up X fs = fs[idx := fs ! (idx - 1), idx - 1 := fs ! idx]"
proof -
  from assms have "idx < length fs" by (simp add: findIndex_Some_iff)
  moreover have "nat (int idx - 1) = idx - 1" by simp
  ultimately show ?thesis using assms by (simp add: Let_def moveInFields.simps)
qed

lemma move_down_at:
  assumes "findIndex (\<lambda>f. field_id f = X) fs = Some idx" "idx + 1 < length fs"
  shows "moveInFields Down X fs = fs[idx := fs ! (idx + 1), idx + 1 := fs ! idx]"
proof -
  have "nat (int idx + 1) = idx + 1" by simp
  then show ?thesis using assms by (simp add: Let_def moveInFields.simps)
qed

lemma top_up_down:
  assumes fi: "findIndex (\<lambda>f. field_id f = X) fs = Some idx" and pos: "0 < idx"
  shows "moveInFields Down X (moveInFields Up X fs) = fs"
proof -
  from fi have lt: "idx < length fs" and p: "field_id (fs ! idx) = X"
    and before: "\<forall>j < idx. field_id (fs ! j) \<noteq> X"
    by (simp_all add: findIndex_Some_iff)
  define fs' where "fs' = fs[idx := fs ! (idx - 1), idx - 1 := fs ! idx]"
  have up: "moveInFields Up X fs = fs'" unfolding fs'_def by (rule move_up_at[OF fi pos])
  have fi': "findIndex (\<lambda>f. field_id f = X) fs' = Some (idx - 1)"
    unfolding findIndex_Some_iff fs'_def using lt pos p before by (auto simp: nth_list_update)
  have len: "(idx - 1) + 1 < length fs'" using lt pos by (simp add: fs'_def)
  have "moveInFields Down X fs' = fs'[idx - 1 := fs' ! ((idx - 1) + 1), (idx - 1) + 1 := fs' ! (idx - 1)]"
    by (rule move_down_at[OF fi' len])
  also have "\<dots> = fs"
    unfolding fs'_def using lt pos by (intro nth_equalityI) (auto simp: nth_list_update)
  finally show ?thesis using up by simp
qed

lemma top_down_up:
  assumes c: "count_id X fs = 1"
    and fi: "findIndex (\<lambda>f. field_id f = X) fs = Some idx" and lt: "idx + 1 < length fs"
  shows "moveInFields Up X (moveInFields Down X fs) = fs"
proof -
  from fi have p: "field_id (fs ! idx) = X"
    and before: "\<forall>j < idx. field_id (fs ! j) \<noteq> X"
    by (simp_all add: findIndex_Some_iff)
  have nxt: "field_id (fs ! (idx + 1)) \<noteq> X"
    by (rule unique_top_other[OF c fi lt]) simp
  define fs' where "fs' = fs[idx := fs ! (idx + 1), idx + 1 := fs ! idx]"
  have down: "moveInFields Down X fs = fs'" unfolding fs'_def by (rule move_down_at[OF fi lt])
  have fi': "findIndex (\<lambda>f. field_id f = X) fs' = Some (idx + 1)"
    unfolding findIndex_Some_iff fs'_def using lt p before nxt
    by (auto simp: nth_list_update less_Suc_eq)
  have "moveInFields Up X fs' = fs'[idx + 1 := fs' ! ((idx + 1) - 1), (idx + 1) - 1 := fs' ! (idx + 1)]"
    by (rule move_up_at[OF fi']) simp
  also have "\<dots> = fs"
    unfolding fs'_def using lt by (intro nth_equalityI) (auto simp: nth_list_update)
  finally show ?thesis using down by simp
qed


lemma moveEach_ids: "map (\<lambda>f. field_id f) (moveEach d X fs) = map (\<lambda>f. field_id f) fs"
proof (induction fs)
  case Nil then show ?case by simp
next
  case (Cons f fs)
  then show ?case by (cases f) simp_all
qed

lemma moveEach_no_top:
  assumes "\<forall>f \<in> set fs. field_id f \<noteq> X"
  shows "\<forall>f \<in> set (moveEach d X fs). field_id f \<noteq> X"
proof
  fix f assume "f \<in> set (moveEach d X fs)"
  then have "field_id f \<in> set (map (\<lambda>f. field_id f) (moveEach d X fs))" by simp
  then have "field_id f \<in> set (map (\<lambda>f. field_id f) fs)" by (simp only: moveEach_ids)
  then obtain g where "g \<in> set fs" "field_id f = field_id g" by auto
  with assms show "field_id f \<noteq> X" by simp
qed

lemma moveInFields_no_top:
  "\<forall>f \<in> set fs. field_id f \<noteq> X \<Longrightarrow> moveInFields d X fs = moveEach d X fs"
  by (simp add: findIndex_None_iff[THEN iffD2] moveInFields.simps)

lemma moveInFields_round:
  assumes c: "count_id X fs = 1" and s: "searchRecursive X None fs cp = Some r"
    and nb: "0 < index r" "index r + 1 < length (parent r)"
    and nested: "(\<forall>f \<in> set fs. field_id f \<noteq> X) \<Longrightarrow>
        moveEach Down X (moveEach Up X fs) = fs \<and> moveEach Up X (moveEach Down X fs) = fs"
  shows "moveInFields Down X (moveInFields Up X fs) = fs
       \<and> moveInFields Up X (moveInFields Down X fs) = fs"
proof (cases "findIndex (\<lambda>f. field_id f = X) fs")
  case None
  then have nt: "\<forall>f \<in> set fs. field_id f \<noteq> X" by (simp add: findIndex_None_iff)
  from nested[OF nt] show ?thesis
    using moveInFields_no_top[OF nt] moveInFields_no_top[OF moveEach_no_top[OF nt]] by simp
next
  case (Some idx)
  from search_top[OF c Some, of cp] s have r: "r = \<lparr>field = fs ! idx, parent = fs, index = idx\<rparr>"
    by simp
  with nb have "0 < idx" "idx + 1 < length fs" by simp_all
  with top_up_down[OF Some] top_down_up[OF c Some] show ?thesis by simp
qed

lemma moveEach_round:
  "count_id X fs = 1 \<Longrightarrow> \<forall>f \<in> set fs. field_id f \<noteq> X \<Longrightarrow>
   searchLoop X None fl cp True i fs = Some r \<Longrightarrow>
   0 < index r \<Longrightarrow> index r + 1 < length (parent r) \<Longrightarrow>
   moveEach Down X (moveEach Up X fs) = fs \<and> moveEach Up X (moveEach Down X fs) = fs"
proof (induction X fs arbitrary: fl cp i rule: count_id.induct)
  case (1 X) then show ?case by simp
next
  case (2 X b kids rest)
  from "2.prems"(2) have nb: "fid b \<noteq> X" and nrest: "\<forall>f \<in> set rest. field_id f \<noteq> X" by simp_all
  from "2.prems"(1) nb have sum: "count_id X kids + count_id X rest = 1" by simp
  show ?case
  proof (cases "count_id X kids = 0")
    case True
    with sum have cr: "count_id X rest = 1" by simp
    from True have "searchRecursive X None kids (cp @ [fid b]) = None"
      by (simp add: searchRecursive_None_scope count_zero_searchLoop)
    with "2.prems"(3) nb have "searchLoop X None fl cp True (i + 1) rest = Some r"
      by (simp add: Let_def)
    from "2.IH"(2)[OF cr nrest this "2.prems"(4,5)] True show ?thesis
      by (simp add: count_zero_moveInFields)
  next
    case False
    with sum have ck: "count_id X kids = 1" and cr: "count_id X rest = 0" by simp_all
    from cr have "searchLoop X None fl cp True (i + 1) rest = None"
      by (rule count_zero_searchLoop)
    with "2.prems"(3) nb have sk: "searchRecursive X None kids (cp @ [fid b]) = Some r"
      by (simp add: Let_def split: option.splits)
    have "moveInFields Down X (moveInFields Up X kids) = kids
        \<and> moveInFields Up X (moveInFields Down X kids) = kids"
    proof (rule moveInFields_round[OF ck sk "2.prems"(4,5)])
      assume nt: "\<forall>f \<in> set kids. field_id f \<noteq> X"
      from sk have "searchLoop X None kids (cp @ [fid b]) True 0 kids = Some r"
        by (simp add: searchRecursive_None_scope)
      from "2.IH"(1)[OF ck nt this "2.prems"(4,5)]
      show "moveEach Down X (moveEach Up X kids) = kids \<and> moveEach Up X (moveEach Down X kids) = kids" .
    qed
    with cr show ?thesis by (simp add: count_zero_moveEach)
  qed
next
  case (3 X b rest)
  from "3.prems" have "count_id X rest = 1" "\<forall>f \<in> set rest. field_id f \<noteq> X"
    "searchLoop X None fl cp True (i + 1) rest = Some r" by (simp_all split: if_splits)
  from "3.IH"[OF this "3.prems"(4,5)] show ?case by simp
next
  case (4 X b rest)
  from "4.prems" have "count_id X rest = 1" "\<forall>f \<in> set rest. field_id f \<noteq> X"
    "searchLoop X None fl cp True (i + 1) rest = Some r" by (simp_all split: if_splits)
  from "4.IH"[OF this "4.prems"(4,5)] show ?case by simp
qed

text \<open>
  In a tree where the id \<open>X\<close> occurs exactly once, at a non-boundary position of its
  sibling sequence, moving up and then down gives the tree back, and so does moving
  down and then up.
\<close>

lemma moveField_round_trip_unique:
  assumes "count_id X T = 1" and "findField X T None = Some r"
    and "0 < index r" and "index r + 1 < length (parent r)"
  shows "moveField X Down (moveField X Up T) = T \<and> moveField X Up (moveField X Down T) = T"
proof -
  from assms(2) have s: "searchRecursive X None T [] = Some r" by (simp add: findField_def)
  have "moveInFields Down X (moveInFields Up X T) = T \<and> moveInFields Up X (moveInFields Down X T) = T"
  proof (rule moveInFields_round[OF assms(1) s assms(3,4)])
    assume nt: "\<forall>f \<in> set T. field_id f \<noteq> X"
    from s have "searchLoop X None T [] True 0 T = Some r"
      by (simp add: searchRecursive_None_scope)
    from moveEach_round[OF assms(1) nt this assms(3,4)]
    show "moveEach Down X (moveEach Up X T) = T \<and> moveEach Up X (moveEach Down X T) = T" .
  qed
  then show ?thesis by (simp add: moveField_def)
qed

text \<open>
  C8. In \<open>twoBranches\<close> the first field \<^verbatim>\<open>x\<close> in document order sits at the middle of the
  three fields of \<^verbatim>\<open>g1\<close>, and every id is unique among its siblings. Moving \<^verbatim>\<open>x\<close> up and
  then down restores \<^verbatim>\<open>g1\<close>, but the tree is not the original one: the move down is made
  in every group that holds an \<^verbatim>\<open>x\<close>, and it takes the field \<^verbatim>\<open>x\<close> at the head of \<^verbatim>\<open>g2\<close>,
  which the move up had left alone, to the second position.
\<close>

theorem moveField_up_down_other_branch:
  "findField ''x'' twoBranches None =
     Some \<lparr>field = TextField (plain ''x'' ''X1''),
       parent = [TextField (plain ''a'' ''A''), TextField (plain ''x'' ''X1''), TextField (plain ''c'' ''C'')],
       index = 1\<rparr>
   \<and> moveField ''x'' Up twoBranches =
     [GroupField (plain ''g1'' ''G1'')
        [TextField (plain ''x'' ''X1''), TextField (plain ''a'' ''A''), TextField (plain ''c'' ''C'')],
      GroupField (plain ''g2'' ''G2'') [TextField (plain ''x'' ''X2''), TextField (plain ''b'' ''B'')]]
   \<and> moveField ''x'' Down (moveField ''x'' Up twoBranches) =
     [GroupField (plain ''g1'' ''G1'')
        [TextField (plain ''a'' ''A''), TextField (plain ''x'' ''X1''), TextField (plain ''c'' ''C'')],
      GroupField (plain ''g2'' ''G2'') [TextField (plain ''b'' ''B''), TextField (plain ''x'' ''X2'')]]
   \<and> moveField ''x'' Down (moveField ''x'' Up twoBranches) \<noteq> twoBranches"
  by (simp add: findField_def twoBranches_def searchRecursive.simps plain_def
        moveField_def moveInFields.simps)

end
